theory Spec2Isabelle
  imports Main "HOL-Library.Sublist"
begin

section \<open>Calendar dates, as the repository code uses them\<close>

text \<open>
  \<^verbatim>\<open>src/repository/contacts.py\<close> uses three operations of Python's \<^verbatim>\<open>datetime.date\<close>:
  \<^verbatim>\<open>today.year\<close>, \<^verbatim>\<open>d.replace(year=y)\<close> and \<^verbatim>\<open>(d1 - d2).days\<close>. A date is a
  (year, month, day) triple; \<^verbatim>\<open>replace\<close> builds a new date and therefore runs the
  constructor's range check, which raises \<^verbatim>\<open>ValueError\<close>; the difference of two dates
  is the difference of their proleptic Gregorian ordinals.
\<close>

datatype error = ValueError | StoreFailure

record date =
  year :: int
  month :: int
  day :: int

definition is_leap :: "int \<Rightarrow> bool" where
  "is_leap y = (y mod 4 = 0 \<and> (y mod 100 \<noteq> 0 \<or> y mod 400 = 0))"

definition DAYS_IN_MONTH :: "int list" where
  "DAYS_IN_MONTH = [-1, 31, 28, 31, 30, 31, 30, 31, 31, 30, 31, 30, 31]"

definition DAYS_BEFORE_MONTH :: "int list" where
  "DAYS_BEFORE_MONTH = [-1, 0, 31, 59, 90, 120, 151, 181, 212, 243, 273, 304, 334]"

definition days_in_month :: "int \<Rightarrow> int \<Rightarrow> int" where
  "days_in_month y m = (if m = 2 \<and> is_leap y then 29 else DAYS_IN_MONTH ! nat m)"

definition days_before_year :: "int \<Rightarrow> int" where
  "days_before_year y1 = (let y = y1 - 1 in y * 365 + y div 4 - y div 100 + y div 400)"

definition days_before_month :: "int \<Rightarrow> int \<Rightarrow> int" where
  "days_before_month y m = DAYS_BEFORE_MONTH ! nat m + (if m > 2 \<and> is_leap y then 1 else 0)"

definition ymd2ord :: "int \<Rightarrow> int \<Rightarrow> int \<Rightarrow> int" where
  "ymd2ord y m d = days_before_year y + days_before_month y m + d"

definition check_date_fields :: "int \<Rightarrow> int \<Rightarrow> int \<Rightarrow> error + date" where
  "check_date_fields y m d =
     (if \<not> (1 \<le> y \<and> y \<le> 9999) then Inl ValueError
      else if \<not> (1 \<le> m \<and> m \<le> 12) then Inl ValueError
      else if \<not> (1 \<le> d \<and> d \<le> days_in_month y m) then Inl ValueError
      else Inr \<lparr>year = y, month = m, day = d\<rparr>)"

text \<open>Every \<^verbatim>\<open>date\<close> object that exists has passed the constructor's check.\<close>

definition valid_date :: "date \<Rightarrow> bool" where
  "valid_date d = (check_date_fields (year d) (month d) (day d) = Inr d)"

definition toordinal :: "date \<Rightarrow> int" where
  "toordinal d = ymd2ord (year d) (month d) (day d)"

definition replace_year :: "date \<Rightarrow> int \<Rightarrow> error + date" where
  "replace_year d y = check_date_fields y (month d) (day d)"

text \<open>\<^verbatim>\<open>(d1 - d2).days\<close>\<close>

definition days_between :: "date \<Rightarrow> date \<Rightarrow> int" where
  "days_between d1 d2 = toordinal d1 - toordinal d2"

section \<open>The data model\<close>

text \<open>
  Modelled from the spec: the declarations of \<^verbatim>\<open>ContactModel\<close> (\<^verbatim>\<open>src/schemas.py\<close>) and of
  the tables \<^verbatim>\<open>Contact\<close> and \<^verbatim>\<open>User\<close> (\<^verbatim>\<open>src/database/models.py\<close>) are not among the
  sources. The fields are the ones the repository functions, the migrations and the
  tests read and write: a request body carries \<^verbatim>\<open>first_name\<close>, \<^verbatim>\<open>last_name\<close>,
  \<^verbatim>\<open>email\<close>, \<^verbatim>\<open>phone\<close> and \<^verbatim>\<open>date_of_birth\<close>; a contact row has these, a numeric
  \<^verbatim>\<open>id\<close>, the nullable timestamps \<^verbatim>\<open>created_at\<close> and \<^verbatim>\<open>updated_at\<close>, and the owner
  reference \<^verbatim>\<open>user_id\<close>. Of a user only \<^verbatim>\<open>id\<close> is read here.
\<close>

type_synonym timestamp = int

record contact_model =
  first_name :: string
  last_name :: string
  email :: string
  phone :: string
  date_of_birth :: date

record contact = contact_model +
  id_contact :: int
  created_at :: "timestamp option"
  updated_at :: "timestamp option"
  user_id :: int

record user =
  id_user :: int

text \<open>
  The contact table behind the session \<^verbatim>\<open>db\<close>: its rows in store order, and the
  sequence that generates the primary key of the next inserted row.
\<close>

record store =
  rows :: "contact list"
  next_id :: int

text \<open>The primary keys handed out so far lie below the sequence's next value.\<close>

definition store_inv :: "store \<Rightarrow> bool" where
  "store_inv db = list_all (\<lambda>c. id_contact c < next_id db) (rows db)"

section \<open>Query building blocks\<close>

text \<open>
  \<^verbatim>\<open>db.query(Contact).filter(p)\<close> keeps the rows that satisfy \<^verbatim>\<open>p\<close>, in store order.
  \<^verbatim>\<open>q1.union(q2)\<close> is SQL \<^verbatim>\<open>UNION\<close>: the rows of both operands with duplicate rows
  removed (SQL fixes no order for the result; the model keeps the last occurrence of each
  row, and the theorems below speak of the set of returned rows only).
  \<^verbatim>\<open>.offset(skip).limit(limit)\<close> drops \<^verbatim>\<open>skip\<close> rows and keeps at most \<^verbatim>\<open>limit\<close>.
  The route hands over unbounded Python integers; the configured engine (PostgreSQL)
  takes \<^verbatim>\<open>OFFSET\<close> and \<^verbatim>\<open>LIMIT\<close> as \<^verbatim>\<open>bigint\<close> and rejects a negative value as well
  as one above \<^verbatim>\<open>2^63 - 1\<close>, which reaches the caller as a store error.
  \<^verbatim>\<open>.first()\<close> is the first row or \<^verbatim>\<open>None\<close>.
\<close>

definition bigint_max :: int where
  "bigint_max = 9223372036854775807"

definition union_q :: "contact list \<Rightarrow> contact list \<Rightarrow> contact list" where
  "union_q q1 q2 = remdups (q1 @ q2)"

definition offset_limit :: "int \<Rightarrow> int \<Rightarrow> contact list \<Rightarrow> error + contact list" where
  "offset_limit skip limit q =
     (if skip < 0 \<or> limit < 0 \<or> bigint_max < skip \<or> bigint_max < limit
      then Inl StoreFailure
      else Inr (take (nat limit) (drop (nat skip) q)))"

definition first_q :: "contact list \<Rightarrow> contact option" where
  "first_q q = (case q of [] \<Rightarrow> None | c # _ \<Rightarrow> Some c)"

text \<open>
  Truth value of a filter argument in \<^verbatim>\<open>if first_name and ...\<close>: the route passes
  \<^verbatim>\<open>None\<close> for an absent query parameter, and both \<^verbatim>\<open>None\<close> and the empty string are
  false.
\<close>

definition truthy :: "string option \<Rightarrow> bool" where
  "truthy s = (case s of None \<Rightarrow> False | Some v \<Rightarrow> v \<noteq> [])"

section \<open>The repository functions\<close>

definition first_name_query :: "string option \<Rightarrow> user \<Rightarrow> store \<Rightarrow> contact list" where
  "first_name_query fn u db =
     filter (\<lambda>c. Some (first_name c) = fn \<and> user_id c = id_user u) (rows db)"

definition last_name_query :: "string option \<Rightarrow> user \<Rightarrow> store \<Rightarrow> contact list" where
  "last_name_query ln u db =
     filter (\<lambda>c. Some (last_name c) = ln \<and> user_id c = id_user u) (rows db)"

definition email_query :: "string option \<Rightarrow> user \<Rightarrow> store \<Rightarrow> contact list" where
  "email_query em u db =
     filter (\<lambda>c. Some (email c) = em \<and> user_id c = id_user u) (rows db)"

definition owner_query :: "user \<Rightarrow> store \<Rightarrow> contact list" where
  "owner_query u db = filter (\<lambda>c. user_id c = id_user u) (rows db)"

definition get_contacts ::
  "int \<Rightarrow> int \<Rightarrow> string option \<Rightarrow> string option \<Rightarrow> string option \<Rightarrow> user \<Rightarrow> store
     \<Rightarrow> error + contact list" where
  "get_contacts skip limit fn ln em u db =
     (if truthy fn \<and> truthy ln \<and> truthy em then
        Inr (union_q (union_q (first_name_query fn u db) (last_name_query ln u db))
               (email_query em u db))
      else if truthy fn \<and> truthy ln then
        Inr (union_q (first_name_query fn u db) (last_name_query ln u db))
      else if truthy fn \<and> truthy em then
        Inr (union_q (first_name_query fn u db) (email_query em u db))
      else if truthy ln \<and> truthy em then
        Inr (union_q (last_name_query ln u db) (email_query em u db))
      else if truthy fn then Inr (first_name_query fn u db)
      else if truthy ln then Inr (last_name_query ln u db)
      else if truthy em then Inr (email_query em u db)
      else offset_limit skip limit (owner_query u db))"

text \<open>
  The loop of \<^verbatim>\<open>get_contacts_birthdays\<close>: \<^verbatim>\<open>acc\<close> is \<^verbatim>\<open>contacts_with_birthdays\<close>.
  A \<^verbatim>\<open>ValueError\<close> raised by \<^verbatim>\<open>replace\<close> leaves the loop and the function.
\<close>

fun birthdays_loop ::
  "int \<Rightarrow> date \<Rightarrow> contact list \<Rightarrow> contact list \<Rightarrow> error + contact list" where
  "birthdays_loop current_year today [] acc = Inr acc"
| "birthdays_loop current_year today (c # cs) acc =
     (case replace_year (date_of_birth c) current_year of
        Inl e \<Rightarrow> Inl e
      | Inr d \<Rightarrow>
          (let td = days_between d today in
           if 0 \<le> td \<and> td \<le> 7 then birthdays_loop current_year today cs (acc @ [c])
           else birthdays_loop current_year today cs acc))"

text \<open>\<^verbatim>\<open>today\<close> is the value of \<^verbatim>\<open>date.today()\<close> at the call.\<close>

definition get_contacts_birthdays ::
  "int \<Rightarrow> int \<Rightarrow> user \<Rightarrow> date \<Rightarrow> store \<Rightarrow> error + contact list" where
  "get_contacts_birthdays skip limit u today db =
     (let current_year = year today in
      case offset_limit skip limit (owner_query u db) of
        Inl e \<Rightarrow> Inl e
      | Inr contacts \<Rightarrow> birthdays_loop current_year today contacts [])"

definition get_contact_by_id :: "int \<Rightarrow> user \<Rightarrow> store \<Rightarrow> contact option" where
  "get_contact_by_id contact_id u db =
     first_q (filter (\<lambda>c. id_contact c = contact_id \<and> user_id c = id_user u) (rows db))"

text \<open>
  \<^verbatim>\<open>create_contact\<close>: the new row takes the body's fields and the caller's id; the store
  generates the primary key, and \<^verbatim>\<open>created\<close> and \<^verbatim>\<open>updated\<close> stand for the values the
  table's column defaults give the two timestamps (the table declaration is not among
  the sources). \<^verbatim>\<open>db.refresh\<close> reads the row back, so the returned contact is the
  stored row.
\<close>

definition create_contact ::
  "contact_model \<Rightarrow> user \<Rightarrow> timestamp option \<Rightarrow> timestamp option \<Rightarrow> store
     \<Rightarrow> contact \<times> store" where
  "create_contact body u created updated db =
     (let c = \<lparr>first_name = first_name body, last_name = last_name body,
                email = email body, phone = phone body,
                date_of_birth = date_of_birth body,
                id_contact = next_id db, created_at = created, updated_at = updated,
                user_id = id_user u\<rparr>
      in (c, db\<lparr>rows := rows db @ [c], next_id := next_id db + 1\<rparr>))"

text \<open>
  \<^verbatim>\<open>update_contact\<close>: the five assignments, then \<^verbatim>\<open>commit\<close>, which writes the row with
  the fetched primary key. \<^verbatim>\<open>onupdate\<close> stands for what the table declaration makes of
  \<^verbatim>\<open>updated_at\<close> when a row is written (the identity when it declares nothing).
\<close>

definition update_contact ::
  "int \<Rightarrow> contact_model \<Rightarrow> user \<Rightarrow> (timestamp option \<Rightarrow> timestamp option) \<Rightarrow> store
     \<Rightarrow> contact option \<times> store" where
  "update_contact contact_id body u onupdate db =
     (case first_q (filter (\<lambda>c. id_contact c = contact_id \<and> user_id c = id_user u) (rows db)) of
        None \<Rightarrow> (None, db)
      | Some c \<Rightarrow>
          (let c' = c\<lparr>first_name := first_name body, last_name := last_name body,
                      email := email body, phone := phone body,
                      date_of_birth := date_of_birth body,
                      updated_at := onupdate (updated_at c)\<rparr>
           in (Some c',
               db\<lparr>rows := map (\<lambda>r. if id_contact r = id_contact c then
                                       r\<lparr>first_name := first_name body,
                                         last_name := last_name body,
                                         email := email body, phone := phone body,
                                         date_of_birth := date_of_birth body,
                                         updated_at := onupdate (updated_at r)\<rparr>
                                     else r) (rows db)\<rparr>)))"

text \<open>
  \<^verbatim>\<open>remove_contact\<close>: \<^verbatim>\<open>db.delete\<close> and \<^verbatim>\<open>commit\<close> delete the row with the fetched
  primary key; the function returns the fetched contact.
\<close>

definition remove_contact :: "int \<Rightarrow> user \<Rightarrow> store \<Rightarrow> contact option \<times> store" where
  "remove_contact contact_id u db =
     (case first_q (filter (\<lambda>c. id_contact c = contact_id \<and> user_id c = id_user u) (rows db)) of
        None \<Rightarrow> (None, db)
      | Some c \<Rightarrow>
          (Some c, db\<lparr>rows := filter (\<lambda>r. id_contact r \<noteq> id_contact c) (rows db)\<rparr>))"

section \<open>The birthday window\<close>

text \<open>
  The test the loop applies to one contact: the date of birth is moved to the year of
  \<^verbatim>\<open>today\<close> and the difference of the two ordinals must lie between 0 and 7.
\<close>

definition within_window :: "date \<Rightarrow> contact \<Rightarrow> bool" where
  "within_window today c =
     (case replace_year (date_of_birth c) (year today) of
        Inl e \<Rightarrow> False
      | Inr d \<Rightarrow> 0 \<le> toordinal d - toordinal today \<and> toordinal d - toordinal today \<le> 7)"

text \<open>
  The window as the specification words it, on the calendar and without ordinals: the day
  after a date, the date \<^verbatim>\<open>k\<close> days after a date, and the contacts whose date of birth,
  moved to the current year, is one of today, today + 1, ..., today + 7.
\<close>

definition next_day :: "date \<Rightarrow> date" where
  "next_day d =
     (if day d < days_in_month (year d) (month d) then d\<lparr>day := day d + 1\<rparr>
      else if month d < 12 then d\<lparr>month := month d + 1, day := 1\<rparr>
      else \<lparr>year = year d + 1, month = 1, day = 1\<rparr>)"

fun add_days :: "date \<Rightarrow> nat \<Rightarrow> date" where
  "add_days d 0 = d"
| "add_days d (Suc k) = next_day (add_days d k)"

definition birthday_within_week :: "date \<Rightarrow> contact \<Rightarrow> bool" where
  "birthday_within_week today c =
     (case replace_year (date_of_birth c) (year today) of
        Inl e \<Rightarrow> False
      | Inr d \<Rightarrow> d \<in> set (map (add_days today) [0..<8]))"

text \<open>Month and day in range, whatever the year.\<close>

definition wf_date :: "date \<Rightarrow> bool" where
  "wf_date d = (1 \<le> month d \<and> month d \<le> 12 \<and> 1 \<le> day d
                \<and> day d \<le> days_in_month (year d) (month d))"

section \<open>Example data\<close>

text \<open>Two users and two small stores, after the fixtures of the repository's unit tests.\<close>

definition user1 :: user where "user1 = \<lparr>id_user = 1\<rparr>"
definition user2 :: user where "user2 = \<lparr>id_user = 2\<rparr>"

definition luffy :: contact where
  "luffy = \<lparr>first_name = ''Luffy'', last_name = ''MonkeyD'',
            email = ''strawhatcaptain@meta.ua'', phone = ''+3057218410'',
            date_of_birth = \<lparr>year = 1994, month = 5, day = 5\<rparr>,
            id_contact = 1, created_at = None, updated_at = None, user_id = 1\<rparr>"

definition zoro :: contact where
  "zoro = \<lparr>first_name = ''Zoro'', last_name = ''Roronoa'',
           email = ''strawhatswordsman@meta.ua'', phone = ''+3057218411'',
           date_of_birth = \<lparr>year = 1990, month = 5, day = 12\<rparr>,
           id_contact = 2, created_at = None, updated_at = None, user_id = 1\<rparr>"

definition nami :: contact where
  "nami = \<lparr>first_name = ''Nami'', last_name = ''Roronoa'',
           email = ''strawhatcaptain@meta.ua'', phone = ''+3057218412'',
           date_of_birth = \<lparr>year = 1991, month = 5, day = 13\<rparr>,
           id_contact = 3, created_at = None, updated_at = None, user_id = 1\<rparr>"

definition buggy :: contact where
  "buggy = \<lparr>first_name = ''Luffy'', last_name = ''MonkeyD'',
            email = ''strawhatcaptain@meta.ua'', phone = ''+3057218413'',
            date_of_birth = \<lparr>year = 1994, month = 5, day = 5\<rparr>,
            id_contact = 4, created_at = None, updated_at = None, user_id = 2\<rparr>"

definition crew :: store where
  "crew = \<lparr>rows = [luffy, zoro, nami, buggy], next_id = 5\<rparr>"

definition brook :: contact where
  "brook = \<lparr>first_name = ''Brook'', last_name = ''Soul'',
            email = ''strawhatmusician@meta.ua'', phone = ''+3057218414'',
            date_of_birth = \<lparr>year = 1990, month = 1, day = 2\<rparr>,
            id_contact = 1, created_at = None, updated_at = None, user_id = 1\<rparr>"

definition robin :: contact where
  "robin = \<lparr>first_name = ''Robin'', last_name = ''Nico'',
            email = ''strawhatscholar@meta.ua'', phone = ''+3057218415'',
            date_of_birth = \<lparr>year = 2000, month = 2, day = 29\<rparr>,
            id_contact = 2, created_at = None, updated_at = None, user_id = 1\<rparr>"

definition franky :: contact where
  "franky = \<lparr>first_name = ''Franky'', last_name = ''Cutty'',
             email = ''strawhatshipwright@meta.ua'', phone = ''+3057218416'',
             date_of_birth = \<lparr>year = 1988, month = 3, day = 1\<rparr>,
             id_contact = 3, created_at = None, updated_at = None, user_id = 1\<rparr>"

definition sunny :: store where
  "sunny = \<lparr>rows = [brook, robin, franky], next_id = 4\<rparr>"

definition usopp :: contact where
  "usopp = \<lparr>first_name = ''Usopp'', last_name = ''Sogeking'',
            email = ''strawhatsniper@meta.ua'', phone = ''+3057218417'',
            date_of_birth = \<lparr>year = 1992, month = 3, day = 4\<rparr>,
            id_contact = 4, created_at = None, updated_at = None, user_id = 1\<rparr>"

definition sanji :: contact where
  "sanji = \<lparr>first_name = ''Sanji'', last_name = ''Vinsmoke'',
            email = ''strawhatcook@meta.ua'', phone = ''+3057218418'',
            date_of_birth = \<lparr>year = 1993, month = 3, day = 5\<rparr>,
            id_contact = 5, created_at = None, updated_at = None, user_id = 1\<rparr>"

definition merry :: store where
  "merry = \<lparr>rows = [brook, robin, franky, usopp, sanji], next_id = 6\<rparr>"

definition feb26 :: date where "feb26 = \<lparr>year = 2024, month = 2, day = 26\<rparr>"
definition may5 :: date where "may5 = \<lparr>year = 2024, month = 5, day = 5\<rparr>"
definition dec29 :: date where "dec29 = \<lparr>year = 2023, month = 12, day = 29\<rparr>"
definition mar1 :: date where "mar1 = \<lparr>year = 2023, month = 3, day = 1\<rparr>"

lemmas ex_defs = user1_def user2_def luffy_def zoro_def nami_def buggy_def crew_def
  brook_def robin_def franky_def sunny_def usopp_def sanji_def merry_def
  feb26_def may5_def dec29_def mar1_def

lemmas date_defs = replace_year_def check_date_fields_def days_in_month_def is_leap_def
  DAYS_IN_MONTH_def DAYS_BEFORE_MONTH_def toordinal_def ymd2ord_def days_before_year_def
  days_before_month_def days_between_def

section \<open>Facts about the building blocks\<close>

lemma check_date_fields_error: "check_date_fields y m d = Inl e \<Longrightarrow> e = ValueError"
  by (simp add: check_date_fields_def split: if_splits)

lemma replace_year_cases:
  "replace_year d y = Inl ValueError \<or> (\<exists>d'. replace_year d y = Inr d')"
  by (cases "replace_year d y") (auto simp: replace_year_def dest: check_date_fields_error)

lemma set_union_q: "set (union_q q1 q2) = set q1 \<union> set q2"
  by (simp add: union_q_def)

lemma distinct_union_q: "distinct (union_q q1 q2)"
  by (simp add: union_q_def)

lemma offset_limit_Inr:
  "offset_limit skip limit q = Inr page \<Longrightarrow> page = take (nat limit) (drop (nat skip) q)"
  by (simp add: offset_limit_def split: if_splits)

lemma offset_limit_subset: "offset_limit skip limit q = Inr page \<Longrightarrow> set page \<subseteq> set q"
  by (auto dest!: offset_limit_Inr dest: in_set_takeD in_set_dropD)

lemma offset_limit_owner:
  assumes "offset_limit skip limit (owner_query u db) = Inr page" and "c \<in> set page"
  shows "user_id c = id_user u"
proof -
  from assms have "c \<in> set (owner_query u db)"
    using offset_limit_subset by blast
  then show ?thesis by (simp add: owner_query_def)
qed

lemma first_q_Some: "first_q q = Some c \<Longrightarrow> c \<in> set q"
  by (auto simp: first_q_def split: list.splits)

subsection \<open>The birthday loop\<close>

text \<open>
  When every date of the page can be moved to the current year the loop is a filter that
  appends to the accumulator; otherwise it raises.
\<close>

lemma birthdays_loop_ok:
  "\<forall>c\<in>set cs. replace_year (date_of_birth c) (year today) \<noteq> Inl ValueError \<Longrightarrow>
   birthdays_loop (year today) today cs acc = Inr (acc @ filter (within_window today) cs)"
proof (induction cs arbitrary: acc)
  case Nil
  then show ?case by simp
next
  case (Cons c cs)
  from Cons.prems obtain d where d: "replace_year (date_of_birth c) (year today) = Inr d"
    using replace_year_cases [of "date_of_birth c" "year today"] by auto
  from Cons.prems
  have rest: "\<forall>c\<in>set cs. replace_year (date_of_birth c) (year today) \<noteq> Inl ValueError"
    by simp
  show ?case
    using d Cons.IH [OF rest]
    by (simp add: within_window_def days_between_def Let_def)
qed

lemma birthdays_loop_raises:
  "\<exists>c\<in>set cs. replace_year (date_of_birth c) (year today) = Inl ValueError \<Longrightarrow>
   birthdays_loop (year today) today cs acc = Inl ValueError"
proof (induction cs arbitrary: acc)
  case Nil
  then show ?case by simp
next
  case (Cons c cs)
  show ?case
  proof (cases "replace_year (date_of_birth c) (year today)")
    case (Inl e)
    then show ?thesis
      using replace_year_cases [of "date_of_birth c" "year today"] by auto
  next
    case (Inr d)
    with Cons.prems
    have "\<exists>c\<in>set cs. replace_year (date_of_birth c) (year today) = Inl ValueError"
      by auto
    from Cons.IH [OF this] Inr show ?thesis
      by (simp add: Let_def)
  qed
qed

lemma birthdays_loop_Inr:
  assumes a: "birthdays_loop (year today) today cs acc = Inr r"
  shows "r = acc @ filter (within_window today) cs"
proof (cases "\<exists>c\<in>set cs. replace_year (date_of_birth c) (year today) = Inl ValueError")
  case True
  with birthdays_loop_raises [OF True, of acc] a show ?thesis by simp
next
  case False
  then have "\<forall>c\<in>set cs. replace_year (date_of_birth c) (year today) \<noteq> Inl ValueError"
    by blast
  from birthdays_loop_ok [OF this, of acc] a show ?thesis by simp
qed

subsection \<open>Ordinals count calendar days\<close>

text \<open>
  The ordinal of the day after a date is the date's ordinal plus one, also across the end
  of a month, of February in a leap year and of the year; and two dates with the same
  ordinal are the same date. So a difference of ordinals is a number of calendar days.
\<close>

lemma month_cases:
  assumes "1 \<le> m" and "m \<le> (12::int)"
  shows "m = 1 \<or> m = 2 \<or> m = 3 \<or> m = 4 \<or> m = 5 \<or> m = 6 \<or> m = 7 \<or> m = 8 \<or> m = 9
       \<or> m = 10 \<or> m = 11 \<or> m = 12"
  using assms by arith

lemma days_in_month_bounds:
  assumes "1 \<le> m" and "m \<le> 12"
  shows "28 \<le> days_in_month y m \<and> days_in_month y m \<le> 31"
  using month_cases [OF assms]
  by (elim disjE) (simp_all add: days_in_month_def DAYS_IN_MONTH_def)

lemma days_before_month_step:
  assumes "1 \<le> m" and "m < 12"
  shows "days_before_month y (m + 1) = days_before_month y m + days_in_month y m"
proof -
  from assms have "m = 1 \<or> m = 2 \<or> m = 3 \<or> m = 4 \<or> m = 5 \<or> m = 6 \<or> m = 7 \<or> m = 8
      \<or> m = 9 \<or> m = 10 \<or> m = 11"
    by arith
  then show ?thesis
    by (elim disjE)
      (simp_all add: days_before_month_def days_in_month_def DAYS_IN_MONTH_def
        DAYS_BEFORE_MONTH_def)
qed

lemma days_before_month_december:
  "days_before_month y 12 + days_in_month y 12 = 365 + (if is_leap y then 1 else 0)"
  by (simp add: days_before_month_def days_in_month_def DAYS_IN_MONTH_def
      DAYS_BEFORE_MONTH_def)

lemma days_before_month_january: "days_before_month y 1 = 0"
  by (simp add: days_before_month_def DAYS_BEFORE_MONTH_def)

lemma div_pred:
  fixes y n :: int
  assumes "0 < n"
  shows "y div n = (y - 1) div n + (if y mod n = 0 then 1 else 0)"
proof -
  define q where "q = (y - 1) div n"
  define r where "r = (y - 1) mod n"
  have y: "y = n * q + (r + 1)"
    unfolding q_def r_def by (simp add: algebra_simps)
  have r: "0 \<le> r" "r < n"
    unfolding r_def using assms by simp_all
  show ?thesis
  proof (cases "r + 1 < n")
    case True
    with r y have "y div n = q" and "y mod n = r + 1"
      by (auto intro: int_div_pos_eq int_mod_pos_eq)
    with r show ?thesis by (simp add: q_def)
  next
    case False
    with r have "r + 1 = n" by simp
    with y have "y = n * (q + 1) + 0" by (simp add: algebra_simps)
    with assms have "y div n = q + 1" and "y mod n = 0"
      by (auto intro: int_div_pos_eq int_mod_pos_eq)
    then show ?thesis by (simp add: q_def)
  qed
qed

lemma year_step_arith:
  fixes y :: int
  assumes "A = A' + p" and "B = B' + q" and "C = C' + r"
  shows "y * 365 + A - B + C = (y - 1) * 365 + A' - B' + C' + 365 + (p - q + r)"
  using assms by (simp add: algebra_simps)

lemma leap_indicator:
  fixes y :: int
  shows "(if y mod 4 = 0 then 1 else 0) - (if y mod 100 = 0 then 1 else 0)
          + (if y mod 400 = 0 then 1 else 0) = (if is_leap y then 1 else (0::int))"
proof -
  have d: "y mod 100 = 0" if "y mod 400 = 0"
  proof -
    from that have "400 dvd y" by (simp add: mod_eq_0_iff_dvd)
    moreover have "(100::int) dvd 400" by simp
    ultimately have "100 dvd y" by (rule dvd_trans [rotated])
    then show ?thesis by (simp add: mod_eq_0_iff_dvd)
  qed
  have e: "y mod 4 = 0" if "y mod 100 = 0"
  proof -
    from that have "100 dvd y" by (simp add: mod_eq_0_iff_dvd)
    moreover have "(4::int) dvd 100" by simp
    ultimately have "4 dvd y" by (rule dvd_trans [rotated])
    then show ?thesis by (simp add: mod_eq_0_iff_dvd)
  qed
  show ?thesis
  proof (cases "y mod 400 = 0")
    case True
    with d e show ?thesis by (simp add: is_leap_def)
  next
    case n400: False
    show ?thesis
    proof (cases "y mod 100 = 0")
      case True
      with n400 e show ?thesis by (simp add: is_leap_def)
    next
      case False
      with n400 show ?thesis by (simp add: is_leap_def)
    qed
  qed
qed

lemma days_before_year_step:
  "days_before_year (y + 1) = days_before_year y + 365 + (if is_leap y then 1 else 0)"
proof -
  have "days_before_year (y + 1) = y * 365 + y div 4 - y div 100 + y div 400"
    by (simp add: days_before_year_def)
  also have "\<dots> = (y - 1) * 365 + (y - 1) div 4 - (y - 1) div 100 + (y - 1) div 400 + 365
      + ((if y mod 4 = 0 then 1 else 0) - (if y mod 100 = 0 then 1 else 0)
          + (if y mod 400 = 0 then 1 else 0))"
    by (rule year_step_arith) (rule div_pred, simp)+
  also have "\<dots> = days_before_year y + 365 + (if is_leap y then 1 else 0)"
    unfolding leap_indicator by (simp add: days_before_year_def Let_def)
  finally show ?thesis .
qed

lemma toordinal_next_day:
  assumes "wf_date d"
  shows "toordinal (next_day d) = toordinal d + 1"
proof (cases "day d < days_in_month (year d) (month d)")
  case True
  then show ?thesis
    by (simp add: next_day_def toordinal_def ymd2ord_def)
next
  case False
  with assms have last: "day d = days_in_month (year d) (month d)"
    by (simp add: wf_date_def)
  show ?thesis
  proof (cases "month d < 12")
    case True
    with assms have "days_before_month (year d) (month d + 1)
        = days_before_month (year d) (month d) + days_in_month (year d) (month d)"
      by (simp add: days_before_month_step wf_date_def)
    with True False last show ?thesis
      by (simp add: next_day_def toordinal_def ymd2ord_def)
  next
    case False
    with assms have m: "month d = 12" by (simp add: wf_date_def)
    from last m days_before_month_december [of "year d"] days_before_year_step [of "year d"]
    show ?thesis
      by (simp add: next_day_def toordinal_def ymd2ord_def days_before_month_january)
  qed
qed

lemma wf_next_day:
  assumes "wf_date d"
  shows "wf_date (next_day d)"
proof (cases "day d < days_in_month (year d) (month d)")
  case True
  with assms show ?thesis by (simp add: next_day_def wf_date_def)
next
  case False
  show ?thesis
  proof (cases "month d < 12")
    case True
    with assms have "28 \<le> days_in_month (year d) (month d + 1)"
      using days_in_month_bounds [of "month d + 1" "year d"] by (simp add: wf_date_def)
    with True False assms show ?thesis by (simp add: next_day_def wf_date_def)
  next
    case nm: False
    have "28 \<le> days_in_month (year d + 1) 1"
      using days_in_month_bounds [of 1 "year d + 1"] by simp
    with nm False show ?thesis by (simp add: next_day_def wf_date_def)
  qed
qed

lemma add_days_wf: "wf_date d \<Longrightarrow> wf_date (add_days d k)"
  by (induction k) (simp_all add: wf_next_day)

lemma toordinal_add_days: "wf_date d \<Longrightarrow> toordinal (add_days d k) = toordinal d + int k"
  by (induction k) (simp_all add: toordinal_next_day add_days_wf)

lemma days_before_month_mono:
  "1 \<le> m \<Longrightarrow> m + int k \<le> 12 \<Longrightarrow> days_before_month y m \<le> days_before_month y (m + int k)"
proof (induction k)
  case 0
  then show ?case by simp
next
  case (Suc k)
  then have le: "days_before_month y m \<le> days_before_month y (m + int k)" by simp
  from Suc.prems have r: "1 \<le> m + int k" "m + int k < 12" by simp_all
  from days_before_month_step [OF r, of y] days_in_month_bounds [of "m + int k" y] r
  have "days_before_month y (m + int k) \<le> days_before_month y (m + int k + 1)" by simp
  with le have "days_before_month y m \<le> days_before_month y (m + int k + 1)" by (rule order_trans)
  moreover have "m + int (Suc k) = m + int k + 1" by simp
  ultimately show ?case by (simp only:)
qed

lemma days_before_month_next:
  assumes "1 \<le> m1" and "m1 < m2" and "m2 \<le> 12"
  shows "days_before_month y m1 + days_in_month y m1 \<le> days_before_month y m2"
proof -
  from assms have s: "days_before_month y (m1 + 1) = days_before_month y m1 + days_in_month y m1"
    by (simp add: days_before_month_step)
  from assms have "m1 + 1 + int (nat (m2 - m1 - 1)) = m2" by simp
  with days_before_month_mono [of "m1 + 1" "nat (m2 - m1 - 1)" y] assms
  have "days_before_month y (m1 + 1) \<le> days_before_month y m2" by simp
  with s show ?thesis by simp
qed

lemma days_before_month_nonneg:
  assumes "1 \<le> m" and "m \<le> 12"
  shows "0 \<le> days_before_month y m"
proof -
  from assms have "1 + int (nat (m - 1)) = m" by simp
  with days_before_month_mono [of 1 "nat (m - 1)" y] assms
  show ?thesis by (simp add: days_before_month_january)
qed

lemma day_of_year_upper:
  assumes "wf_date d"
  shows "days_before_month (year d) (month d) + day d
           \<le> 365 + (if is_leap (year d) then 1 else 0)"
proof (cases "month d = 12")
  case True
  with assms days_before_month_december [of "year d"] show ?thesis
    by (simp add: wf_date_def)
next
  case False
  with assms have "days_before_month (year d) (month d) + days_in_month (year d) (month d)
      \<le> days_before_month (year d) 12"
    by (intro days_before_month_next) (simp_all add: wf_date_def)
  moreover have "0 \<le> days_in_month (year d) 12"
    using days_in_month_bounds [of 12 "year d"] by simp
  ultimately show ?thesis
    using assms days_before_month_december [of "year d"] by (simp add: wf_date_def)
qed

lemma days_before_year_mono: "days_before_year y \<le> days_before_year (y + int k)"
proof (induction k)
  case 0
  then show ?case by simp
next
  case (Suc k)
  have "days_before_year (y + int k) \<le> days_before_year (y + int k + 1)"
    by (simp add: days_before_year_step)
  with Suc.IH have "days_before_year y \<le> days_before_year (y + int k + 1)" by (rule order_trans)
  moreover have "y + int (Suc k) = y + int k + 1" by simp
  ultimately show ?case by (simp only:)
qed

lemma toordinal_year_less:
  assumes "wf_date d1" and "wf_date d2" and "year d1 < year d2"
  shows "toordinal d1 < toordinal d2"
proof -
  from day_of_year_upper [OF assms(1)] days_before_year_step [of "year d1"]
  have "toordinal d1 \<le> days_before_year (year d1 + 1)"
    by (simp add: toordinal_def ymd2ord_def)
  also from assms(3) have "year d1 + 1 + int (nat (year d2 - year d1 - 1)) = year d2" by simp
  with days_before_year_mono [of "year d1 + 1" "nat (year d2 - year d1 - 1)"]
  have "days_before_year (year d1 + 1) \<le> days_before_year (year d2)" by simp
  also from assms(2) days_before_month_nonneg [of "month d2" "year d2"]
  have "days_before_year (year d2) < toordinal d2"
    by (simp add: toordinal_def ymd2ord_def wf_date_def)
  finally show ?thesis .
qed

lemma toordinal_month_less:
  assumes "wf_date d1" and "wf_date d2" and "year d1 = year d2" and "month d1 < month d2"
  shows "toordinal d1 < toordinal d2"
proof -
  from assms have "days_before_month (year d1) (month d1) + days_in_month (year d1) (month d1)
      \<le> days_before_month (year d1) (month d2)"
    by (intro days_before_month_next) (simp_all add: wf_date_def)
  with assms show ?thesis
    by (simp add: toordinal_def ymd2ord_def wf_date_def)
qed

lemma toordinal_inj:
  assumes "wf_date d1" and "wf_date d2" and eq: "toordinal d1 = toordinal d2"
  shows "d1 = d2"
proof -
  have y: "year d1 = year d2"
  proof (rule ccontr)
    assume "year d1 \<noteq> year d2"
    then consider "year d1 < year d2" | "year d2 < year d1" by linarith
    then show False
    proof cases
      case 1
      from toordinal_year_less [OF assms(1,2) 1] eq show False by simp
    next
      case 2
      from toordinal_year_less [OF assms(2,1) 2] eq show False by simp
    qed
  qed
  have m: "month d1 = month d2"
  proof (rule ccontr)
    assume "month d1 \<noteq> month d2"
    then consider "month d1 < month d2" | "month d2 < month d1" by linarith
    then show False
    proof cases
      case 1
      from toordinal_month_less [OF assms(1,2) y 1] eq show False by simp
    next
      case 2
      from toordinal_month_less [OF assms(2,1) y [symmetric] 2] eq show False by simp
    qed
  qed
  from eq y m have "day d1 = day d2"
    by (simp add: toordinal_def ymd2ord_def)
  with y m show ?thesis by simp
qed

lemma check_date_fields_wf: "check_date_fields y m d = Inr x \<Longrightarrow> wf_date x"
  by (auto simp: check_date_fields_def wf_date_def split: if_splits)

lemma valid_date_wf: "valid_date d \<Longrightarrow> wf_date d"
  by (simp add: valid_date_def check_date_fields_wf)

lemma within_week_calendar:
  assumes "wf_date today" and "wf_date d"
  shows "(0 \<le> toordinal d - toordinal today \<and> toordinal d - toordinal today \<le> 7)
         = (d \<in> set (map (add_days today) [0..<8]))"
proof
  assume a: "0 \<le> toordinal d - toordinal today \<and> toordinal d - toordinal today \<le> 7"
  define k where "k = nat (toordinal d - toordinal today)"
  from a have k: "k < 8"
    unfolding k_def by linarith
  from a have "toordinal d = toordinal today + int k"
    unfolding k_def by simp
  with toordinal_add_days [OF assms(1), of k]
  have "toordinal d = toordinal (add_days today k)" by simp
  with assms have "d = add_days today k"
    by (intro toordinal_inj add_days_wf)
  with k show "d \<in> set (map (add_days today) [0..<8])" by simp
next
  assume "d \<in> set (map (add_days today) [0..<8])"
  then obtain k where "k < 8" and "d = add_days today k" by auto
  with toordinal_add_days [OF assms(1), of k]
  show "0 \<le> toordinal d - toordinal today \<and> toordinal d - toordinal today \<le> 7" by simp
qed

lemma within_window_calendar:
  assumes "valid_date today"
  shows "within_window today c = birthday_within_week today c"
proof (cases "replace_year (date_of_birth c) (year today)")
  case (Inl e)
  then show ?thesis by (simp add: within_window_def birthday_within_week_def)
next
  case (Inr d)
  then have "wf_date d" by (simp add: replace_year_def check_date_fields_wf)
  from within_week_calendar [OF valid_date_wf [OF assms] this] Inr show ?thesis
    by (simp add: within_window_def birthday_within_week_def)
qed

subsection \<open>Every read is scoped to the caller\<close>

lemma get_contacts_owner:
  "get_contacts skip limit fn ln em u db = Inr r \<Longrightarrow> c \<in> set r \<Longrightarrow> user_id c = id_user u"
  by (auto simp: get_contacts_def set_union_q first_name_query_def last_name_query_def
      email_query_def split: if_splits dest: offset_limit_owner)

lemma get_contacts_birthdays_owner:
  "get_contacts_birthdays skip limit u today db = Inr r \<Longrightarrow> c \<in> set r \<Longrightarrow>
   user_id c = id_user u"
  by (auto simp: get_contacts_birthdays_def Let_def split: sum.splits
      dest!: birthdays_loop_Inr dest: offset_limit_owner)

lemma get_contact_by_id_owner:
  "get_contact_by_id contact_id u db = Some c \<Longrightarrow>
   user_id c = id_user u \<and> id_contact c = contact_id"
  by (auto simp: get_contact_by_id_def dest: first_q_Some)

subsection \<open>Pagination, the key sequence, row-wise updates\<close>

lemma length_offset_limit:
  "offset_limit skip limit q = Inr page \<Longrightarrow> int (length page) \<le> limit"
  by (auto simp: offset_limit_def split: if_splits)

lemma store_inv_empty: "store_inv \<lparr>rows = [], next_id = 1\<rparr>"
  by (simp add: store_inv_def)

lemma store_inv_no_next:
  "store_inv db \<Longrightarrow> filter (\<lambda>c. id_contact c = next_id db \<and> P c) (rows db) = []"
  by (auto simp: store_inv_def list_all_iff filter_empty_conv)

lemma store_inv_create:
  "store_inv db \<Longrightarrow> store_inv (snd (create_contact body u created updated db))"
  by (auto simp: store_inv_def create_contact_def Let_def list_all_iff)

lemma store_inv_update:
  "store_inv db \<Longrightarrow> store_inv (snd (update_contact contact_id body u onupdate db))"
  by (auto simp: store_inv_def update_contact_def Let_def list_all_iff split: option.splits)

lemma store_inv_remove:
  "store_inv db \<Longrightarrow> store_inv (snd (remove_contact contact_id u db))"
  by (auto simp: store_inv_def remove_contact_def list_all_iff split: option.splits)

lemma filter_map_preserved:
  "(\<And>x. P (f x) = P x) \<Longrightarrow> filter P (map f xs) = map f (filter P xs)"
  by (induction xs) auto

section \<open>The claims\<close>

text \<open>
  C1. For two distinct owners U1 and U2, a contact whose owner reference is U1 is in the
  result of no read executed with owner U2: not in the listing \<^verbatim>\<open>get_contacts\<close>
  (whatever the filters), not in \<^verbatim>\<open>get_contact_by_id\<close> (whatever the id), and not in
  \<^verbatim>\<open>get_contacts_birthdays\<close>.
\<close>

theorem owner_isolation:
  assumes "id_user u1 \<noteq> id_user u2" and "user_id c = id_user u1"
  shows "(\<forall>r. get_contacts skip limit fn ln em u2 db = Inr r \<longrightarrow> c \<notin> set r)
       \<and> get_contact_by_id contact_id u2 db \<noteq> Some c
       \<and> (\<forall>r. get_contacts_birthdays skip limit u2 today db = Inr r \<longrightarrow> c \<notin> set r)"
  using assms get_contacts_owner [of skip limit fn ln em u2 db _ c]
    get_contacts_birthdays_owner [of skip limit u2 today db _ c]
    get_contact_by_id_owner [of contact_id u2 db c]
  by auto

theorem owner_isolation_witness:
  "id_user user1 \<noteq> id_user user2 \<and> user_id luffy = id_user user1
   \<and> get_contacts 0 10 (Some ''Luffy'') None None user2 crew = Inr [buggy]
   \<and> luffy \<notin> set [buggy]
   \<and> get_contact_by_id 1 user2 crew \<noteq> Some luffy
   \<and> get_contacts_birthdays 0 10 user2 may5 crew = Inr [buggy]"
proof -
  have h1: "id_user user1 \<noteq> id_user user2" by (simp add: user1_def user2_def)
  have h2: "user_id luffy = id_user user1" by (simp add: luffy_def user1_def)
  have g: "get_contacts 0 10 (Some ''Luffy'') None None user2 crew = Inr [buggy]"
    by (simp add: get_contacts_def truthy_def first_name_query_def ex_defs)
  have b: "get_contacts_birthdays 0 10 user2 may5 crew = Inr [buggy]"
    by (simp add: get_contacts_birthdays_def offset_limit_def bigint_max_def owner_query_def ex_defs date_defs)
  from owner_isolation [OF h1 h2, of 0 10 "Some ''Luffy''" None None crew 1 may5] g b h1 h2
  show ?thesis by simp
qed

text \<open>
  C2. With three non-empty filters X, Y, Z, \<^verbatim>\<open>get_contacts\<close> returns the owner's contacts
  whose first name is X, those whose last name is Y and those whose email is Z: exactly
  the union of the three sets, each contact once, whatever skip and limit are.
\<close>

theorem get_contacts_three_filters_union:
  assumes "X \<noteq> []" and "Y \<noteq> []" and "Z \<noteq> []"
  shows "\<exists>r. get_contacts skip limit (Some X) (Some Y) (Some Z) u db = Inr r
           \<and> set r = {c \<in> set (rows db). user_id c = id_user u \<and> first_name c = X}
                   \<union> {c \<in> set (rows db). user_id c = id_user u \<and> last_name c = Y}
                   \<union> {c \<in> set (rows db). user_id c = id_user u \<and> email c = Z}
           \<and> distinct r"
proof -
  let ?r = "union_q (union_q (first_name_query (Some X) u db) (last_name_query (Some Y) u db))
              (email_query (Some Z) u db)"
  from assms have "get_contacts skip limit (Some X) (Some Y) (Some Z) u db = Inr ?r"
    by (simp add: get_contacts_def truthy_def)
  moreover have "set ?r = {c \<in> set (rows db). user_id c = id_user u \<and> first_name c = X}
                   \<union> {c \<in> set (rows db). user_id c = id_user u \<and> last_name c = Y}
                   \<union> {c \<in> set (rows db). user_id c = id_user u \<and> email c = Z}"
    by (auto simp: set_union_q first_name_query_def last_name_query_def email_query_def)
  moreover have "distinct ?r" by (rule distinct_union_q)
  ultimately show ?thesis by blast
qed

theorem get_contacts_three_filters_union_witness:
  "''Luffy'' \<noteq> [] \<and> ''Roronoa'' \<noteq> [] \<and> ''strawhatcaptain@meta.ua'' \<noteq> []
   \<and> get_contacts 7 0 (Some ''Luffy'') (Some ''Roronoa'') (Some ''strawhatcaptain@meta.ua'')
        user1 crew = Inr [zoro, luffy, nami]
   \<and> (\<exists>r. get_contacts 7 0 (Some ''Luffy'') (Some ''Roronoa'') (Some ''strawhatcaptain@meta.ua'')
             user1 crew = Inr r
          \<and> set r = set [luffy] \<union> set [zoro, nami] \<union> set [luffy, nami] \<and> distinct r)"
proof -
  have h1: "''Luffy'' \<noteq> []" and h2: "''Roronoa'' \<noteq> []"
    and h3: "''strawhatcaptain@meta.ua'' \<noteq> []"
    by simp_all
  have v: "get_contacts 7 0 (Some ''Luffy'') (Some ''Roronoa'') (Some ''strawhatcaptain@meta.ua'')
        user1 crew = Inr [zoro, luffy, nami]"
    by (simp add: get_contacts_def truthy_def first_name_query_def last_name_query_def
        email_query_def union_q_def ex_defs)
  have s1: "{c \<in> set (rows crew). user_id c = id_user user1 \<and> first_name c = ''Luffy''}
            = set [luffy]"
    unfolding set_filter [symmetric] by (simp add: ex_defs)
  have s2: "{c \<in> set (rows crew). user_id c = id_user user1 \<and> last_name c = ''Roronoa''}
            = set [zoro, nami]"
    unfolding set_filter [symmetric] by (simp add: ex_defs)
  have s3: "{c \<in> set (rows crew). user_id c = id_user user1
               \<and> email c = ''strawhatcaptain@meta.ua''} = set [luffy, nami]"
    unfolding set_filter [symmetric] by (simp add: ex_defs)
  from get_contacts_three_filters_union [OF h1 h2 h3, of 7 0 user1 crew]
  show ?thesis unfolding s1 s2 s3 using v by simp
qed

text \<open>
  C3, as stated, fails on the code: on 2023-03-01 the fetched page holds a contact born on
  March 1 (difference 0) and the call raises, because the page also holds a contact born
  on February 29; and a limit of \<^verbatim>\<open>2^63\<close> is rejected by the store.
\<close>

theorem get_contacts_birthdays_fetch_then_filter_counterexample:
  "offset_limit 0 10 (owner_query user1 sunny) = Inr [brook, robin, franky]
   \<and> valid_date mar1 \<and> valid_date (date_of_birth franky)
   \<and> replace_year (date_of_birth franky) (year mar1) = Inr mar1
   \<and> days_between mar1 mar1 = 0
   \<and> get_contacts_birthdays 0 10 user1 mar1 sunny = Inl ValueError
   \<and> get_contacts_birthdays 0 10 user1 mar1 sunny \<noteq> Inr [franky]
   \<and> owner_query user1 crew = [luffy, zoro, nami]
   \<and> get_contacts_birthdays 0 9223372036854775808 user1 may5 crew = Inl StoreFailure"
  by (simp add: get_contacts_birthdays_def offset_limit_def bigint_max_def owner_query_def
      valid_date_def ex_defs date_defs)

text \<open>
  C3, amended. For skip and limit between 0 and \<^verbatim>\<open>2^63 - 1\<close>, a valid \<^verbatim>\<open>today\<close> and a
  fetched page on which every date of birth can be moved to the current year,
  \<^verbatim>\<open>get_contacts_birthdays\<close> fetches the skip/limit page of the owner's contacts in store
  order and then filters that page: it returns exactly the contacts of the page whose
  date of birth, moved to the current year, is one of today, today + 1, ..., today + 7
  (a difference of 0 to 7 days). A birthday today or on today + 7 is kept, one on
  today + 8 is dropped, and the result is a subsequence of the page.
\<close>

theorem get_contacts_birthdays_fetch_then_filter:
  assumes "0 \<le> skip" and "skip \<le> bigint_max" and "0 \<le> limit" and "limit \<le> bigint_max"
    and today: "valid_date today"
    and page: "page = take (nat limit) (drop (nat skip)
                        (filter (\<lambda>c. user_id c = id_user u) (rows db)))"
    and ok: "\<forall>c\<in>set page. replace_year (date_of_birth c) (year today) \<noteq> Inl ValueError"
  shows "\<exists>r. get_contacts_birthdays skip limit u today db = Inr r
           \<and> r = filter (birthday_within_week today) page \<and> subseq r page
           \<and> (\<forall>c\<in>set page. \<forall>d. replace_year (date_of_birth c) (year today) = Inr d \<longrightarrow>
                 (c \<in> set r \<longleftrightarrow> d \<in> set (map (add_days today) [0..<8]))
               \<and> (c \<in> set r \<longleftrightarrow> 0 \<le> days_between d today \<and> days_between d today \<le> 7)
               \<and> (d = today \<longrightarrow> c \<in> set r)
               \<and> (d = add_days today 7 \<longrightarrow> c \<in> set r)
               \<and> (d = add_days today 8 \<longrightarrow> c \<notin> set r)
               \<and> (days_between d today = 0 \<longrightarrow> c \<in> set r)
               \<and> (days_between d today = 7 \<longrightarrow> c \<in> set r)
               \<and> (days_between d today = 8 \<longrightarrow> c \<notin> set r))
           \<and> (\<forall>k. days_between (add_days today k) today = int k)"
proof -
  let ?r = "filter (birthday_within_week today) page"
  from assms(1-4) page have ol: "offset_limit skip limit (owner_query u db) = Inr page"
    by (simp add: offset_limit_def owner_query_def)
  have wt: "wf_date today" using today by (rule valid_date_wf)
  have "within_window today = birthday_within_week today"
    using within_window_calendar [OF today] by (rule ext)
  with birthdays_loop_ok [OF ok, of "[]"] ol
  have res: "get_contacts_birthdays skip limit u today db = Inr ?r"
    by (simp add: get_contacts_birthdays_def)
  have days: "days_between (add_days today k) today = int k" for k
    using toordinal_add_days [OF wt, of k] by (simp add: days_between_def)
  have mem: "(c \<in> set ?r \<longleftrightarrow> d \<in> set (map (add_days today) [0..<8]))
               \<and> (c \<in> set ?r \<longleftrightarrow> 0 \<le> days_between d today \<and> days_between d today \<le> 7)
               \<and> (d = today \<longrightarrow> c \<in> set ?r)
               \<and> (d = add_days today 7 \<longrightarrow> c \<in> set ?r)
               \<and> (d = add_days today 8 \<longrightarrow> c \<notin> set ?r)
               \<and> (days_between d today = 0 \<longrightarrow> c \<in> set ?r)
               \<and> (days_between d today = 7 \<longrightarrow> c \<in> set ?r)
               \<and> (days_between d today = 8 \<longrightarrow> c \<notin> set ?r)"
    if c: "c \<in> set page" and d: "replace_year (date_of_birth c) (year today) = Inr d" for c d
  proof -
    from c d have cal: "c \<in> set ?r \<longleftrightarrow> d \<in> set (map (add_days today) [0..<8])"
      by (simp add: birthday_within_week_def)
    from c d within_window_calendar [OF today, of c]
    have ord: "c \<in> set ?r \<longleftrightarrow> 0 \<le> days_between d today \<and> days_between d today \<le> 7"
      by (simp add: within_window_def days_between_def)
    have "days_between today today = 0" by (simp add: days_between_def)
    with ord have t0: "d = today \<longrightarrow> c \<in> set ?r" by simp
    from ord days [of 7] have t7: "d = add_days today 7 \<longrightarrow> c \<in> set ?r" by simp
    from ord days [of 8] have t8: "d = add_days today 8 \<longrightarrow> c \<notin> set ?r" by simp
    from ord have o: "(days_between d today = 0 \<longrightarrow> c \<in> set ?r)
               \<and> (days_between d today = 7 \<longrightarrow> c \<in> set ?r)
               \<and> (days_between d today = 8 \<longrightarrow> c \<notin> set ?r)"
      by simp
    from cal ord t0 t7 t8 o show ?thesis by blast
  qed
  have "subseq ?r page" by simp
  with res mem days show ?thesis by blast
qed

theorem get_contacts_birthdays_fetch_then_filter_witness:
  "(0::int) \<le> 0 \<and> 0 \<le> bigint_max \<and> (0::int) \<le> 10 \<and> 10 \<le> bigint_max
   \<and> valid_date feb26
   \<and> [brook, robin, franky, usopp, sanji] = take (nat 10) (drop (nat 0)
        (filter (\<lambda>c. user_id c = id_user user1) (rows merry)))
   \<and> list_all (\<lambda>c. replace_year (date_of_birth c) (year feb26) \<noteq> Inl ValueError)
        [brook, robin, franky, usopp, sanji]
   \<and> get_contacts_birthdays 0 10 user1 feb26 merry = Inr [robin, franky, usopp]
   \<and> filter (birthday_within_week feb26) [brook, robin, franky, usopp, sanji]
       = [robin, franky, usopp]
   \<and> subseq [robin, franky, usopp] [brook, robin, franky, usopp, sanji]
   \<and> replace_year (date_of_birth robin) (year feb26) = Inr \<lparr>year = 2024, month = 2, day = 29\<rparr>
   \<and> add_days feb26 3 = \<lparr>year = 2024, month = 2, day = 29\<rparr>
   \<and> replace_year (date_of_birth usopp) (year feb26) = Inr \<lparr>year = 2024, month = 3, day = 4\<rparr>
   \<and> add_days feb26 7 = \<lparr>year = 2024, month = 3, day = 4\<rparr>
   \<and> days_between \<lparr>year = 2024, month = 3, day = 4\<rparr> feb26 = 7
   \<and> replace_year (date_of_birth sanji) (year feb26) = Inr \<lparr>year = 2024, month = 3, day = 5\<rparr>
   \<and> add_days feb26 8 = \<lparr>year = 2024, month = 3, day = 5\<rparr>
   \<and> days_between \<lparr>year = 2024, month = 3, day = 5\<rparr> feb26 = 8
   \<and> get_contacts_birthdays 0 10 user1 may5 crew = Inr [luffy, zoro]
   \<and> days_between \<lparr>year = 2024, month = 5, day = 5\<rparr> may5 = 0
   \<and> days_between \<lparr>year = 2024, month = 5, day = 12\<rparr> may5 = 7
   \<and> days_between \<lparr>year = 2024, month = 5, day = 13\<rparr> may5 = 8
   \<and> get_contacts_birthdays 1 1 user1 may5 crew = Inr [zoro]
   \<and> get_contacts_birthdays 0 2 user1 \<lparr>year = 2024, month = 5, day = 13\<rparr> crew = Inr []
   \<and> get_contacts_birthdays 0 3 user1 \<lparr>year = 2024, month = 5, day = 13\<rparr> crew = Inr [nami]"
proof -
  have h1: "(0::int) \<le> 0" and h2: "0 \<le> bigint_max" and h3: "(0::int) \<le> 10"
    and h4: "10 \<le> bigint_max"
    by (simp_all add: bigint_max_def)
  have h5: "valid_date feb26"
    by (simp add: valid_date_def ex_defs date_defs)
  have h6: "[brook, robin, franky, usopp, sanji] = take (nat 10) (drop (nat 0)
        (filter (\<lambda>c. user_id c = id_user user1) (rows merry)))"
    by (simp add: ex_defs)
  have h7: "\<forall>c\<in>set [brook, robin, franky, usopp, sanji].
              replace_year (date_of_birth c) (year feb26) \<noteq> Inl ValueError"
    by (simp add: ex_defs date_defs)
  have l7: "list_all (\<lambda>c. replace_year (date_of_birth c) (year feb26) \<noteq> Inl ValueError)
        [brook, robin, franky, usopp, sanji]"
    by (simp add: ex_defs date_defs)
  have v: "get_contacts_birthdays 0 10 user1 feb26 merry = Inr [robin, franky, usopp]"
    by (simp add: get_contacts_birthdays_def offset_limit_def bigint_max_def owner_query_def
        ex_defs date_defs)
  have d1: "replace_year (date_of_birth robin) (year feb26)
            = Inr \<lparr>year = 2024, month = 2, day = 29\<rparr>"
    and d2: "replace_year (date_of_birth usopp) (year feb26)
            = Inr \<lparr>year = 2024, month = 3, day = 4\<rparr>"
    and d3: "days_between \<lparr>year = 2024, month = 3, day = 4\<rparr> feb26 = 7"
    and d4: "replace_year (date_of_birth sanji) (year feb26)
            = Inr \<lparr>year = 2024, month = 3, day = 5\<rparr>"
    and d5: "days_between \<lparr>year = 2024, month = 3, day = 5\<rparr> feb26 = 8"
    and d6: "days_between \<lparr>year = 2024, month = 5, day = 5\<rparr> may5 = 0"
    and d7: "days_between \<lparr>year = 2024, month = 5, day = 12\<rparr> may5 = 7"
    and d8: "days_between \<lparr>year = 2024, month = 5, day = 13\<rparr> may5 = 8"
    by (simp_all add: ex_defs date_defs)
  have a3: "add_days feb26 3 = \<lparr>year = 2024, month = 2, day = 29\<rparr>"
    and a7: "add_days feb26 7 = \<lparr>year = 2024, month = 3, day = 4\<rparr>"
    and a8: "add_days feb26 8 = \<lparr>year = 2024, month = 3, day = 5\<rparr>"
    by (simp_all add: eval_nat_numeral next_day_def feb26_def days_in_month_def is_leap_def
        DAYS_IN_MONTH_def)
  have p0: "get_contacts_birthdays 0 10 user1 may5 crew = Inr [luffy, zoro]"
    and p2: "get_contacts_birthdays 1 1 user1 may5 crew = Inr [zoro]"
    and p4: "get_contacts_birthdays 0 2 user1 \<lparr>year = 2024, month = 5, day = 13\<rparr> crew = Inr []"
    and p5: "get_contacts_birthdays 0 3 user1 \<lparr>year = 2024, month = 5, day = 13\<rparr> crew
             = Inr [nami]"
    by (simp_all add: get_contacts_birthdays_def offset_limit_def bigint_max_def owner_query_def
        ex_defs date_defs)
  from get_contacts_birthdays_fetch_then_filter [OF h1 h2 h3 h4 h5 h6 h7] v
  have f: "filter (birthday_within_week feb26) [brook, robin, franky, usopp, sanji]
             = [robin, franky, usopp]"
    and s: "subseq [robin, franky, usopp] [brook, robin, franky, usopp, sanji]"
    by auto
  from h1 h2 h3 h4 h5 h6 l7 v f s d1 a3 d2 a7 d3 d4 a8 d5 p0 d6 d7 d8 p2 p4 p5
  show ?thesis by (intro conjI)
qed

text \<open>
  C4. When no row matches both the contact id and the owner, \<^verbatim>\<open>update_contact\<close> and
  \<^verbatim>\<open>remove_contact\<close> each return the absent result \<^verbatim>\<open>None\<close> (not an error) and the
  store they leave is the store they were given: no field is written, no row removed.
\<close>

theorem update_remove_absent_noop:
  assumes "\<forall>c\<in>set (rows db). \<not> (id_contact c = contact_id \<and> user_id c = id_user u)"
  shows "update_contact contact_id body u onupdate db = (None, db)
       \<and> remove_contact contact_id u db = (None, db)"
proof -
  from assms
  have "filter (\<lambda>c. id_contact c = contact_id \<and> user_id c = id_user u) (rows db) = []"
    by (simp add: filter_empty_conv)
  then show ?thesis
    by (simp add: update_contact_def remove_contact_def first_q_def)
qed

theorem update_remove_absent_noop_witness:
  "filter (\<lambda>c. id_contact c = 4 \<and> user_id c = id_user user1) (rows crew) = []
   \<and> update_contact 4 (contact_model.truncate zoro) user1 (\<lambda>t. Some 7) crew = (None, crew)
   \<and> remove_contact 4 user1 crew = (None, crew)
   \<and> get_contact_by_id 4 user2 crew = Some buggy"
proof -
  have h: "\<forall>c\<in>set (rows crew). \<not> (id_contact c = 4 \<and> user_id c = id_user user1)"
    by (simp add: ex_defs)
  have g: "get_contact_by_id 4 user2 crew = Some buggy"
    by (simp add: get_contact_by_id_def first_q_def ex_defs)
  have e: "filter (\<lambda>c. id_contact c = 4 \<and> user_id c = id_user user1) (rows crew) = []"
    by (simp add: ex_defs)
  from update_remove_absent_noop [OF h, of "contact_model.truncate zoro" "\<lambda>t. Some 7"] e g
  show ?thesis by simp
qed

text \<open>
  C5. A contact whose date of birth, moved to the current year, falls strictly before
  today is not in the result of \<^verbatim>\<open>get_contacts_birthdays\<close>, also when its next birthday
  (in the next year) is within 7 days: with today December 29 and a birthday on
  January 2 the contact is not returned.
\<close>

theorem birthdays_before_today_excluded:
  assumes "replace_year (date_of_birth c) (year today) = Inr d"
    and "toordinal d < toordinal today"
    and "get_contacts_birthdays skip limit u today db = Inr r"
  shows "c \<notin> set r"
proof
  assume "c \<in> set r"
  moreover from assms(3) obtain page where "r = filter (within_window today) page"
    by (auto simp: get_contacts_birthdays_def split: sum.splits dest!: birthdays_loop_Inr)
  ultimately have "within_window today c" by simp
  with assms(1,2) show False
    by (simp add: within_window_def)
qed

theorem birthdays_before_today_excluded_witness:
  "replace_year (date_of_birth brook) (year dec29) = Inr \<lparr>year = 2023, month = 1, day = 2\<rparr>
   \<and> toordinal \<lparr>year = 2023, month = 1, day = 2\<rparr> < toordinal dec29
   \<and> replace_year (date_of_birth brook) (year dec29 + 1)
       = Inr \<lparr>year = 2024, month = 1, day = 2\<rparr>
   \<and> days_between \<lparr>year = 2024, month = 1, day = 2\<rparr> dec29 = 4
   \<and> get_contacts_birthdays 0 1 user1 dec29 sunny = Inr []
   \<and> brook \<notin> set []"
proof -
  have h1: "replace_year (date_of_birth brook) (year dec29)
            = Inr \<lparr>year = 2023, month = 1, day = 2\<rparr>"
    by (simp add: ex_defs date_defs)
  have h2: "toordinal \<lparr>year = 2023, month = 1, day = 2\<rparr> < toordinal dec29"
    by (simp add: ex_defs date_defs)
  have h3: "get_contacts_birthdays 0 1 user1 dec29 sunny = Inr []"
    by (simp add: get_contacts_birthdays_def offset_limit_def bigint_max_def
        owner_query_def ex_defs date_defs)
  have n1: "replace_year (date_of_birth brook) (year dec29 + 1)
            = Inr \<lparr>year = 2024, month = 1, day = 2\<rparr>"
    by (simp add: ex_defs date_defs)
  have n2: "days_between \<lparr>year = 2024, month = 1, day = 2\<rparr> dec29 = 4"
    by (simp add: ex_defs date_defs)
  from birthdays_before_today_excluded [OF h1 h2 h3] h1 h2 h3 n1 n2
  show ?thesis by simp
qed

text \<open>
  C6. The claim asks that a contact born on February 29 is handled by a fallback when the
  current year is not a leap year. The code has no fallback: on 2023-03-01, with such a
  contact among the fetched rows, \<^verbatim>\<open>replace\<close> raises and \<^verbatim>\<open>get_contacts_birthdays\<close>
  ends in \<^verbatim>\<open>ValueError\<close>, although both dates are valid and another contact of the page
  has its birthday that very day.
\<close>

theorem get_contacts_birthdays_feb29_raises:
  "valid_date (date_of_birth robin) \<and> valid_date mar1
   \<and> days_between \<lparr>year = 2023, month = 3, day = 1\<rparr> mar1 = 0
   \<and> get_contacts_birthdays 0 10 user1 mar1 sunny = Inl ValueError"
  by (simp add: get_contacts_birthdays_def offset_limit_def bigint_max_def owner_query_def valid_date_def
      ex_defs date_defs)

text \<open>
  C7, as stated, fails on the code: without a filter and with a limit of \<^verbatim>\<open>2^63\<close> the
  store rejects the query, and no page of the owner's contacts is returned.
\<close>

theorem get_contacts_pagination_only_unfiltered_counterexample:
  "\<not> truthy None \<and> (0::int) \<le> 0 \<and> (0::int) < 9223372036854775808
   \<and> owner_query user1 crew = [luffy, zoro, nami]
   \<and> get_contacts 0 9223372036854775808 None None None user1 crew = Inl StoreFailure"
  by (simp add: get_contacts_def truthy_def offset_limit_def bigint_max_def owner_query_def
      ex_defs)

text \<open>
  C7, amended. Pagination applies only without a filter. With one non-empty filter the
  result is every contact of the owner whose field equals it, whatever skip and limit
  are; with any filter active skip and limit do not influence the result; with no filter,
  and skip and limit between 0 and \<^verbatim>\<open>2^63 - 1\<close>, the result is the owner's contacts in
  store order, \<^verbatim>\<open>skip\<close> dropped and at most \<^verbatim>\<open>limit\<close> kept.
\<close>

theorem get_contacts_pagination_only_unfiltered:
  "(X \<noteq> [] \<longrightarrow> \<not> truthy ln \<longrightarrow> \<not> truthy em \<longrightarrow>
      get_contacts skip limit (Some X) ln em u db
        = Inr (filter (\<lambda>c. first_name c = X \<and> user_id c = id_user u) (rows db)))
 \<and> (Y \<noteq> [] \<longrightarrow> \<not> truthy fn \<longrightarrow> \<not> truthy em \<longrightarrow>
      get_contacts skip limit fn (Some Y) em u db
        = Inr (filter (\<lambda>c. last_name c = Y \<and> user_id c = id_user u) (rows db)))
 \<and> (Z \<noteq> [] \<longrightarrow> \<not> truthy fn \<longrightarrow> \<not> truthy ln \<longrightarrow>
      get_contacts skip limit fn ln (Some Z) u db
        = Inr (filter (\<lambda>c. email c = Z \<and> user_id c = id_user u) (rows db)))
 \<and> (truthy fn \<or> truthy ln \<or> truthy em \<longrightarrow>
      get_contacts skip limit fn ln em u db = get_contacts skip' limit' fn ln em u db)
 \<and> (\<not> truthy fn \<longrightarrow> \<not> truthy ln \<longrightarrow> \<not> truthy em \<longrightarrow>
      0 \<le> skip \<longrightarrow> skip \<le> bigint_max \<longrightarrow> 0 \<le> limit \<longrightarrow> limit \<le> bigint_max \<longrightarrow>
      (\<exists>r. get_contacts skip limit fn ln em u db = Inr r
          \<and> r = take (nat limit) (drop (nat skip)
                   (filter (\<lambda>c. user_id c = id_user u) (rows db)))
          \<and> int (length r) \<le> limit))"
proof (intro conjI impI)
  assume "X \<noteq> []" "\<not> truthy ln" "\<not> truthy em"
  then show "get_contacts skip limit (Some X) ln em u db
        = Inr (filter (\<lambda>c. first_name c = X \<and> user_id c = id_user u) (rows db))"
    by (simp add: get_contacts_def truthy_def first_name_query_def)
next
  assume "Y \<noteq> []" "\<not> truthy fn" "\<not> truthy em"
  then show "get_contacts skip limit fn (Some Y) em u db
        = Inr (filter (\<lambda>c. last_name c = Y \<and> user_id c = id_user u) (rows db))"
    by (simp add: get_contacts_def truthy_def last_name_query_def)
next
  assume "Z \<noteq> []" "\<not> truthy fn" "\<not> truthy ln"
  then show "get_contacts skip limit fn ln (Some Z) u db
        = Inr (filter (\<lambda>c. email c = Z \<and> user_id c = id_user u) (rows db))"
    by (simp add: get_contacts_def truthy_def email_query_def)
next
  assume "truthy fn \<or> truthy ln \<or> truthy em"
  then show "get_contacts skip limit fn ln em u db = get_contacts skip' limit' fn ln em u db"
    by (auto simp: get_contacts_def)
next
  assume f: "\<not> truthy fn" "\<not> truthy ln" "\<not> truthy em"
    and w: "0 \<le> skip" "skip \<le> bigint_max" "0 \<le> limit" "limit \<le> bigint_max"
  let ?r = "take (nat limit) (drop (nat skip) (filter (\<lambda>c. user_id c = id_user u) (rows db)))"
  from f w have "get_contacts skip limit fn ln em u db = Inr ?r"
    by (simp add: get_contacts_def offset_limit_def owner_query_def)
  moreover from w have "int (length ?r) \<le> limit" by simp
  ultimately show "\<exists>r. get_contacts skip limit fn ln em u db = Inr r
          \<and> r = ?r \<and> int (length r) \<le> limit"
    by blast
qed

theorem get_contacts_pagination_only_unfiltered_witness:
  "''Roronoa'' \<noteq> [] \<and> \<not> truthy None \<and> \<not> truthy (Some [])
   \<and> get_contacts 1 1 (Some ''Roronoa'') None (Some []) user1 crew = Inr []
   \<and> get_contacts 1 1 None (Some ''Roronoa'') (Some []) user1 crew = Inr [zoro, nami]
   \<and> get_contacts 1 1 None None (Some ''strawhatcaptain@meta.ua'') user1 crew
       = Inr [luffy, nami]
   \<and> truthy (Some ''Roronoa'')
   \<and> get_contacts 0 10 None (Some ''Roronoa'') (Some []) user1 crew = Inr [zoro, nami]
   \<and> (0::int) \<le> 1 \<and> 1 \<le> bigint_max
   \<and> get_contacts 1 1 None None (Some []) user1 crew = Inr [zoro]
   \<and> int (length [zoro]) \<le> 1"
proof -
  have t: "''Roronoa'' \<noteq> []" "''strawhatcaptain@meta.ua'' \<noteq> []" "\<not> truthy None"
    "\<not> truthy (Some [])" "truthy (Some ''Roronoa'')" "(0::int) \<le> 1" "1 \<le> bigint_max"
    by (simp_all add: truthy_def bigint_max_def)
  have f1: "filter (\<lambda>c. first_name c = ''Roronoa'' \<and> user_id c = id_user user1) (rows crew) = []"
    and f2: "filter (\<lambda>c. last_name c = ''Roronoa'' \<and> user_id c = id_user user1) (rows crew)
             = [zoro, nami]"
    and f3: "filter (\<lambda>c. email c = ''strawhatcaptain@meta.ua'' \<and> user_id c = id_user user1)
               (rows crew) = [luffy, nami]"
    and f4: "take (nat 1) (drop (nat 1) (filter (\<lambda>c. user_id c = id_user user1) (rows crew)))
             = [zoro]"
    by (simp_all add: ex_defs)
  note a = get_contacts_pagination_only_unfiltered
    [of "''Roronoa''" None "Some []" 1 1 user1 crew "''Roronoa''" None
        "''strawhatcaptain@meta.ua''" 0 10]
  note b = get_contacts_pagination_only_unfiltered
    [of "''Roronoa''" "Some ''Roronoa''" "Some []" 1 1 user1 crew "''Roronoa''" None
        "''strawhatcaptain@meta.ua''" 0 10]
  from a b t show ?thesis
    unfolding f1 f2 f3 f4 by auto
qed

text \<open>
  C8. An empty-string filter is the same as an absent one: for each of the three filter
  arguments, \<^verbatim>\<open>get_contacts\<close> gives the same result for \<^verbatim>\<open>''\<close> as for \<^verbatim>\<open>None\<close>, so the
  empty string is never compared with a field.
\<close>

theorem get_contacts_empty_filter_disabled:
  "get_contacts skip limit (Some []) ln em u db = get_contacts skip limit None ln em u db
 \<and> get_contacts skip limit fn (Some []) em u db = get_contacts skip limit fn None em u db
 \<and> get_contacts skip limit fn ln (Some []) u db = get_contacts skip limit fn ln None u db"
  by (simp add: get_contacts_def truthy_def)

text \<open>
  C9. \<^verbatim>\<open>create_contact\<close> always yields a contact, and \<^verbatim>\<open>get_contact_by_id\<close> on its
  id with the same owner, right after, returns that contact, whose first name, last name,
  email, phone and date of birth are the ones given to create.
\<close>

theorem create_then_get_roundtrip:
  assumes "store_inv db"
  shows "\<exists>c db'. create_contact body u created updated db = (c, db')
           \<and> get_contact_by_id (id_contact c) u db' = Some c
           \<and> first_name c = first_name body \<and> last_name c = last_name body
           \<and> email c = email body \<and> phone c = phone body
           \<and> date_of_birth c = date_of_birth body
           \<and> user_id c = id_user u"
proof -
  let ?c = "\<lparr>first_name = first_name body, last_name = last_name body,
             email = email body, phone = phone body,
             date_of_birth = date_of_birth body,
             id_contact = next_id db, created_at = created, updated_at = updated,
             user_id = id_user u\<rparr>"
  let ?db' = "db\<lparr>rows := rows db @ [?c], next_id := next_id db + 1\<rparr>"
  have cr: "create_contact body u created updated db = (?c, ?db')"
    by (simp add: create_contact_def Let_def)
  from store_inv_no_next [OF assms, of "\<lambda>c. user_id c = id_user u"]
  have "filter (\<lambda>c. id_contact c = id_contact ?c \<and> user_id c = id_user u) (rows ?db') = [?c]"
    by simp
  then have "get_contact_by_id (id_contact ?c) u ?db' = Some ?c"
    unfolding get_contact_by_id_def by (simp add: first_q_def)
  with cr show ?thesis by simp
qed

theorem create_then_get_roundtrip_witness:
  "store_inv crew
   \<and> (\<exists>c db'. create_contact (contact_model.truncate franky) user2 (Some 100) None crew = (c, db')
         \<and> get_contact_by_id (id_contact c) user2 db' = Some c
         \<and> first_name c = ''Franky'' \<and> last_name c = ''Cutty''
         \<and> email c = ''strawhatshipwright@meta.ua'' \<and> phone c = ''+3057218416''
         \<and> date_of_birth c = \<lparr>year = 1988, month = 3, day = 1\<rparr>
         \<and> user_id c = 2)
   \<and> id_contact (fst (create_contact (contact_model.truncate franky) user2 (Some 100) None crew)) = 5"
proof -
  have h: "store_inv crew"
    by (simp add: store_inv_def ex_defs)
  have i: "id_contact (fst (create_contact (contact_model.truncate franky) user2 (Some 100) None crew)) = 5"
    by (simp add: create_contact_def Let_def ex_defs)
  have b: "first_name (contact_model.truncate franky) = ''Franky''"
    "last_name (contact_model.truncate franky) = ''Cutty''"
    "email (contact_model.truncate franky) = ''strawhatshipwright@meta.ua''"
    "phone (contact_model.truncate franky) = ''+3057218416''"
    "date_of_birth (contact_model.truncate franky) = \<lparr>year = 1988, month = 3, day = 1\<rparr>"
    "id_user user2 = 2"
    by (simp_all add: contact_model.truncate_def ex_defs)
  from create_then_get_roundtrip [OF h, of "contact_model.truncate franky" user2 "Some 100" None]
  show ?thesis unfolding b using h i by simp
qed

text \<open>
  C10. For a contact matched by (id, owner), \<^verbatim>\<open>update_contact\<close> overwrites the five
  fields \<^verbatim>\<open>first_name\<close>, \<^verbatim>\<open>last_name\<close>, \<^verbatim>\<open>email\<close>, \<^verbatim>\<open>phone\<close> and
  \<^verbatim>\<open>date_of_birth\<close>; the contact's id, owner reference and \<^verbatim>\<open>created_at\<close> stay as
  they were, and so does every row with another id.
\<close>

theorem update_contact_frame:
  assumes "get_contact_by_id contact_id u db = Some c"
  shows "\<exists>c' db'. update_contact contact_id body u onupdate db = (Some c', db')
           \<and> first_name c' = first_name body \<and> last_name c' = last_name body
           \<and> email c' = email body \<and> phone c' = phone body
           \<and> date_of_birth c' = date_of_birth body
           \<and> id_contact c' = id_contact c \<and> user_id c' = user_id c
           \<and> created_at c' = created_at c
           \<and> c'\<lparr>updated_at := updated_at c\<rparr>
               = c\<lparr>first_name := first_name body, last_name := last_name body,
                   email := email body, phone := phone body,
                   date_of_birth := date_of_birth body\<rparr>
           \<and> get_contact_by_id contact_id u db' = Some c'
           \<and> next_id db' = next_id db
           \<and> length (rows db') = length (rows db)
           \<and> (\<forall>i<length (rows db).
                 id_contact (rows db' ! i) = id_contact (rows db ! i)
               \<and> user_id (rows db' ! i) = user_id (rows db ! i)
               \<and> created_at (rows db' ! i) = created_at (rows db ! i)
               \<and> (id_contact (rows db ! i) \<noteq> contact_id \<longrightarrow> rows db' ! i = rows db ! i))"
proof -
  let ?P = "\<lambda>c. id_contact c = contact_id \<and> user_id c = id_user u"
  let ?f = "\<lambda>r. if id_contact r = id_contact c then
                   r\<lparr>first_name := first_name body, last_name := last_name body,
                     email := email body, phone := phone body,
                     date_of_birth := date_of_birth body,
                     updated_at := onupdate (updated_at r)\<rparr>
                 else r"
  let ?c' = "c\<lparr>first_name := first_name body, last_name := last_name body,
               email := email body, phone := phone body,
               date_of_birth := date_of_birth body,
               updated_at := onupdate (updated_at c)\<rparr>"
  let ?db' = "db\<lparr>rows := map ?f (rows db)\<rparr>"
  from assms have fq: "first_q (filter ?P (rows db)) = Some c"
    by (simp add: get_contact_by_id_def)
  then obtain rest where rest: "filter ?P (rows db) = c # rest"
    by (auto simp: first_q_def split: list.splits)
  from assms have idc: "id_contact c = contact_id"
    by (simp add: get_contact_by_id_owner)
  from fq have up: "update_contact contact_id body u onupdate db = (Some ?c', ?db')"
    by (simp add: update_contact_def Let_def)
  have "filter ?P (map ?f (rows db)) = map ?f (filter ?P (rows db))"
    by (rule filter_map_preserved) simp
  with rest have "filter ?P (rows ?db') = ?c' # map ?f rest" by simp
  then have rd: "get_contact_by_id contact_id u ?db' = Some ?c'"
    unfolding get_contact_by_id_def by (simp add: first_q_def)
  have fr: "\<forall>i<length (rows db).
                 id_contact (rows ?db' ! i) = id_contact (rows db ! i)
               \<and> user_id (rows ?db' ! i) = user_id (rows db ! i)
               \<and> created_at (rows ?db' ! i) = created_at (rows db ! i)
               \<and> (id_contact (rows db ! i) \<noteq> contact_id \<longrightarrow> rows ?db' ! i = rows db ! i)"
    using idc by simp
  have fields: "first_name ?c' = first_name body \<and> last_name ?c' = last_name body
           \<and> email ?c' = email body \<and> phone ?c' = phone body
           \<and> date_of_birth ?c' = date_of_birth body
           \<and> id_contact ?c' = id_contact c \<and> user_id ?c' = user_id c
           \<and> created_at ?c' = created_at c
           \<and> ?c'\<lparr>updated_at := updated_at c\<rparr>
               = c\<lparr>first_name := first_name body, last_name := last_name body,
                   email := email body, phone := phone body,
                   date_of_birth := date_of_birth body\<rparr>"
    by simp
  have misc: "next_id ?db' = next_id db \<and> length (rows ?db') = length (rows db)"
    by simp
  from up fields rd misc fr show ?thesis by blast
qed

theorem update_contact_frame_witness:
  "get_contact_by_id 2 user1 crew = Some zoro
   \<and> update_contact 2 (contact_model.truncate franky) user1 (\<lambda>t. Some 9) crew
       = (Some \<lparr>first_name = ''Franky'', last_name = ''Cutty'',
                email = ''strawhatshipwright@meta.ua'', phone = ''+3057218416'',
                date_of_birth = \<lparr>year = 1988, month = 3, day = 1\<rparr>,
                id_contact = 2, created_at = None, updated_at = Some 9, user_id = 1\<rparr>,
          \<lparr>rows = [luffy,
                   \<lparr>first_name = ''Franky'', last_name = ''Cutty'',
                    email = ''strawhatshipwright@meta.ua'', phone = ''+3057218416'',
                    date_of_birth = \<lparr>year = 1988, month = 3, day = 1\<rparr>,
                    id_contact = 2, created_at = None, updated_at = Some 9, user_id = 1\<rparr>,
                   nami, buggy], next_id = 5\<rparr>)
   \<and> (\<exists>c' db'. update_contact 2 (contact_model.truncate franky) user1 (\<lambda>t. Some 9) crew
                  = (Some c', db')
         \<and> id_contact c' = id_contact zoro \<and> user_id c' = user_id zoro
         \<and> created_at c' = created_at zoro
         \<and> get_contact_by_id 2 user1 db' = Some c'
         \<and> length (rows db') = length (rows crew))"
proof -
  have h: "get_contact_by_id 2 user1 crew = Some zoro"
    by (simp add: get_contact_by_id_def first_q_def ex_defs)
  have v: "update_contact 2 (contact_model.truncate franky) user1 (\<lambda>t. Some 9) crew
       = (Some \<lparr>first_name = ''Franky'', last_name = ''Cutty'',
                email = ''strawhatshipwright@meta.ua'', phone = ''+3057218416'',
                date_of_birth = \<lparr>year = 1988, month = 3, day = 1\<rparr>,
                id_contact = 2, created_at = None, updated_at = Some 9, user_id = 1\<rparr>,
          \<lparr>rows = [luffy,
                   \<lparr>first_name = ''Franky'', last_name = ''Cutty'',
                    email = ''strawhatshipwright@meta.ua'', phone = ''+3057218416'',
                    date_of_birth = \<lparr>year = 1988, month = 3, day = 1\<rparr>,
                    id_contact = 2, created_at = None, updated_at = Some 9, user_id = 1\<rparr>,
                   nami, buggy], next_id = 5\<rparr>)"
    by (simp add: update_contact_def first_q_def Let_def contact_model.truncate_def ex_defs)
  from update_contact_frame [OF h, of "contact_model.truncate franky" "\<lambda>t. Some 9"]
  obtain c' db' where
    "update_contact 2 (contact_model.truncate franky) user1 (\<lambda>t. Some 9) crew = (Some c', db')"
    "id_contact c' = id_contact zoro" "user_id c' = user_id zoro"
    "created_at c' = created_at zoro" "get_contact_by_id 2 user1 db' = Some c'"
    "length (rows db') = length (rows crew)"
    by blast
  then have "\<exists>c' db'. update_contact 2 (contact_model.truncate franky) user1 (\<lambda>t. Some 9) crew
                  = (Some c', db')
         \<and> id_contact c' = id_contact zoro \<and> user_id c' = user_id zoro
         \<and> created_at c' = created_at zoro
         \<and> get_contact_by_id 2 user1 db' = Some c'
         \<and> length (rows db') = length (rows crew)"
    by blast
  with h v show ?thesis by blast
qed

end
